theory Spec2Isabelle
  imports Main "HOL-Library.Word"
begin

unbundle bit_operations_syntax

section \<open>The program: \<open>src/game.js\<close>\<close>

subsection \<open>Data\<close>

text \<open>
  The cells of the rules matrix are the three strings \<open>'Draw'\<close>, \<open>'Win'\<close> and
  \<open>'Lose'\<close>; no other value is ever stored in it.
\<close>

datatype outcome = Win | Lose | Draw

text \<open>
  A move is a JavaScript string. It is modelled by the list of the bytes of its UTF-8
  encoding (\<open>string\<close> is \<open>char list\<close>, and a \<open>char\<close> is a byte): this is the form in
  which the HMAC consumes it, and \<open>===\<close> on two well-formed strings is equality of
  these lists.
\<close>

type_synonym move = string

text \<open>
  \<open>class GameRules\<close>: the constructor stores the list of moves and the matrix
  computed from it.
\<close>

record GameRules =
  moves :: "move list"
  rulesMatrix :: "outcome list list"

text \<open>
  \<open>throw new Error(msg)\<close> is the only exception the source raises by itself.
  \<open>TypeError\<close> is what the engine raises when a property is read from
  \<open>undefined\<close>, which is what \<open>matrix[i][j]\<close> does when row \<open>i\<close> does not exist.
\<close>

datatype error = Error string | TypeError

subsection \<open>\<open>generateRulesMatrix\<close>\<close>

text \<open>
  The inner loop \<open>for (let j = 1; j <= (n - 1) / 2; j++)\<close>. The division is the
  division of JavaScript numbers, so \<open>(n - 1) / 2\<close> is not rounded; for an integer
  \<open>j\<close> the test \<open>j <= (n - 1) / 2\<close> is \<open>2 * j + 1 \<le> n\<close>. In the body,
  \<open>i - j + n\<close> is computed as \<open>i + n - j\<close>, which is the same number since
  \<open>j \<le> n\<close> there. The loop is only entered with \<open>i < n\<close>, so row \<open>i\<close> exists,
  and both assignments write to a column below \<open>n\<close> of this row.
\<close>

function inner_loop :: "nat \<Rightarrow> nat \<Rightarrow> nat \<Rightarrow> outcome list list \<Rightarrow> outcome list list" where
  "inner_loop n i j matrix =
     (if 2 * j + 1 \<le> n then
        (let winIndex = (i + j) mod n;
             loseIndex = (i + n - j) mod n;
             matrix1 = matrix[i := (matrix ! i)[winIndex := Win]];
             matrix2 = matrix1[i := (matrix1 ! i)[loseIndex := Lose]]
         in inner_loop n i (j + 1) matrix2)
      else matrix)"
  by pat_completeness auto
termination
  by (relation "measure (\<lambda>(n, i, j, matrix). n - 2 * j)") auto

text \<open>The outer loop \<open>for (let i = 0; i < n; i++)\<close>.\<close>

function outer_loop :: "nat \<Rightarrow> nat \<Rightarrow> outcome list list \<Rightarrow> outcome list list" where
  "outer_loop n i matrix =
     (if i < n then outer_loop n (i + 1) (inner_loop n i 1 matrix) else matrix)"
  by pat_completeness auto
termination
  by (relation "measure (\<lambda>(n, i, matrix). n - i)") auto

text \<open>
  \<open>Array.from({ length: n }, () => Array(n).fill('Draw'))\<close> is a list of \<open>n\<close>
  separate rows of \<open>n\<close> cells \<open>'Draw'\<close>.
\<close>

definition generateRulesMatrix :: "move list \<Rightarrow> outcome list list" where
  "generateRulesMatrix ms =
     (let n = length ms;
          matrix = replicate n (replicate n Draw)
      in outer_loop n 0 matrix)"

definition GameRules_new :: "move list \<Rightarrow> GameRules" where
  "GameRules_new ms = \<lparr> moves = ms, rulesMatrix = generateRulesMatrix ms \<rparr>"

subsection \<open>\<open>determineResult\<close>\<close>

text \<open>
  \<open>Array.prototype.indexOf\<close>: the first index at which the element occurs, compared
  with \<open>===\<close>, and \<open>-1\<close> when there is none.
\<close>

fun indexOf_from :: "nat \<Rightarrow> 'a list \<Rightarrow> 'a \<Rightarrow> int" where
  "indexOf_from k [] x = - 1"
| "indexOf_from k (y # ys) x = (if y = x then int k else indexOf_from (k + 1) ys x)"

definition indexOf :: "'a list \<Rightarrow> 'a \<Rightarrow> int" where
  "indexOf xs x = indexOf_from 0 xs x"

text \<open>
  Reading \<open>xs[i]\<close> gives \<open>undefined\<close> (here \<open>None\<close>) when \<open>i\<close> is not an index of
  \<open>xs\<close>.
\<close>

definition js_nth :: "'a list \<Rightarrow> nat \<Rightarrow> 'a option" where
  "js_nth xs i = (if i < length xs then Some (xs ! i) else None)"

text \<open>
  \<open>determineResult\<close> throws when one of the two moves is not in \<open>this.moves\<close> and
  returns the cell \<open>this.rulesMatrix[playerIndex][computerIndex]\<close> otherwise. The read
  of a row that does not exist would raise a \<open>TypeError\<close>, and the read of a cell that
  does not exist would return \<open>undefined\<close>.
\<close>

definition determineResult :: "GameRules \<Rightarrow> move \<Rightarrow> move \<Rightarrow> error + outcome option" where
  "determineResult this playerMove computerMove =
     (let playerIndex = indexOf (moves this) playerMove;
          computerIndex = indexOf (moves this) computerMove
      in if playerIndex = - 1 \<or> computerIndex = - 1
         then Inl (Error ''Invalid move selected. Please choose a valid move.'')
         else (case js_nth (rulesMatrix this) (nat playerIndex) of
                 None \<Rightarrow> Inl TypeError
               | Some row \<Rightarrow> Inr (js_nth row (nat computerIndex))))"

subsection \<open>\<open>displayHelp\<close>\<close>

text \<open>
  \<open>displayHelp\<close> prints the matrix as a table. The first line of the table is built
  from the list \<open>header\<close>, whose first entry is the label of the corner (rows: the
  move of the PC; columns: the move of the user) and whose other entries are the moves;
  line \<open>i\<close> is built from the list \<open>row\<close>, that is \<open>this.moves[i]\<close> followed by the
  cells of \<open>this.rulesMatrix[i]\<close>, each padded to ten characters. Under the table the
  function prints that the results are from the point of view of the user, and the
  example "If you choose Rock and the computer chooses Scissors, you Win." Only the two
  lists are modelled here, not the borders and the printing. \<open>padEnd\<close> fills a string
  with spaces up to a length and leaves a longer string as it is.
\<close>

definition padEnd :: "nat \<Rightarrow> string \<Rightarrow> string" where
  "padEnd k s = s @ replicate (k - length s) CHR '' ''"

fun outcome_string :: "outcome \<Rightarrow> string" where
  "outcome_string Win = ''Win''"
| "outcome_string Lose = ''Lose''"
| "outcome_string Draw = ''Draw''"

definition displayHelp_header :: "GameRules \<Rightarrow> string list" where
  "displayHelp_header this = (''v PC'' @ [CHR 0x5C] @ ''User >'') # moves this"

definition displayHelp_row :: "GameRules \<Rightarrow> nat \<Rightarrow> string list" where
  "displayHelp_row this i =
     padEnd 10 (moves this ! i) # map (\<lambda>r. padEnd 10 (outcome_string r)) (rulesMatrix this ! i)"

subsection \<open>\<open>validateArguments\<close> and the start of the script\<close>

text \<open>
  \<open>process.exit(1)\<close> ends the program; it is the value \<open>Exit 1\<close> on the left of
  the result. \<open>new Set(args).size\<close> is the number of different strings in \<open>args\<close>.
\<close>

datatype exit = Exit int

definition validateArguments :: "string list \<Rightarrow> exit + unit" where
  "validateArguments args =
     (if length args < 3 \<or> length args mod 2 = 0 \<or> card (set args) \<noteq> length args
      then Inl (Exit 1)
      else Inr ())"

text \<open>
  \<open>class RockPaperScissorsGame\<close>: its constructor stores the moves and builds the
  rules (the field \<open>moves\<close> is called \<open>game_moves\<close> here, \<open>moves\<close> being the field of
  \<open>GameRules\<close>).
\<close>

record RockPaperScissorsGame =
  game_moves :: "move list"
  rules :: GameRules

definition RockPaperScissorsGame_new :: "move list \<Rightarrow> RockPaperScissorsGame" where
  "RockPaperScissorsGame_new ms = \<lparr> game_moves = ms, rules = GameRules_new ms \<rparr>"

text \<open>
  The last lines of the script: the arguments are validated, then the game is
  constructed from them. \<open>game.start()\<close>, which draws the random key and move and
  talks to the user, is not part of the model.
\<close>

definition main :: "string list \<Rightarrow> exit + RockPaperScissorsGame" where
  "main args =
     (case validateArguments args of
        Inl e \<Rightarrow> Inl e
      | Inr u \<Rightarrow> Inr (RockPaperScissorsGame_new args))"

section \<open>HMAC-SHA256\<close>

text \<open>
  Modelled from the spec: \<open>HMACCalculator.calculateHMAC\<close> is the single expression
  \<open>crypto.createHmac('sha256', key).update(message).digest('hex')\<close>, and \<open>crypto\<close> is the
  library of the platform, not code of \<open>src/game.js\<close>. The spec names what the expression
  computes: the HMAC-SHA256 of the UTF-8 bytes of the message under the key, as lowercase
  hexadecimal digits. SHA-256 is written out here after FIPS 180-4 and HMAC after
  RFC 2104, on bytes (\<open>8 word\<close>) and 32-bit words (\<open>32 word\<close>, whose \<open>+\<close> wraps).
\<close>

type_synonym byte = "8 word"

definition K256 :: "32 word list" where
  "K256 =
    [0x428A2F98, 0x71374491, 0xB5C0FBCF, 0xE9B5DBA5, 0x3956C25B, 0x59F111F1, 0x923F82A4, 0xAB1C5ED5,
     0xD807AA98, 0x12835B01, 0x243185BE, 0x550C7DC3, 0x72BE5D74, 0x80DEB1FE, 0x9BDC06A7, 0xC19BF174,
     0xE49B69C1, 0xEFBE4786, 0x0FC19DC6, 0x240CA1CC, 0x2DE92C6F, 0x4A7484AA, 0x5CB0A9DC, 0x76F988DA,
     0x983E5152, 0xA831C66D, 0xB00327C8, 0xBF597FC7, 0xC6E00BF3, 0xD5A79147, 0x06CA6351, 0x14292967,
     0x27B70A85, 0x2E1B2138, 0x4D2C6DFC, 0x53380D13, 0x650A7354, 0x766A0ABB, 0x81C2C92E, 0x92722C85,
     0xA2BFE8A1, 0xA81A664B, 0xC24B8B70, 0xC76C51A3, 0xD192E819, 0xD6990624, 0xF40E3585, 0x106AA070,
     0x19A4C116, 0x1E376C08, 0x2748774C, 0x34B0BCB5, 0x391C0CB3, 0x4ED8AA4A, 0x5B9CCA4F, 0x682E6FF3,
     0x748F82EE, 0x78A5636F, 0x84C87814, 0x8CC70208, 0x90BEFFFA, 0xA4506CEB, 0xBEF9A3F7, 0xC67178F2]"

type_synonym sha_state =
  "32 word \<times> 32 word \<times> 32 word \<times> 32 word \<times> 32 word \<times> 32 word \<times> 32 word \<times> 32 word"

definition H256 :: sha_state where
  "H256 = (0x6A09E667, 0xBB67AE85, 0x3C6EF372, 0xA54FF53A,
           0x510E527F, 0x9B05688C, 0x1F83D9AB, 0x5BE0CD19)"

definition Ch :: "32 word \<Rightarrow> 32 word \<Rightarrow> 32 word \<Rightarrow> 32 word" where
  "Ch x y z = (x AND y) XOR (NOT x AND z)"

definition Maj :: "32 word \<Rightarrow> 32 word \<Rightarrow> 32 word \<Rightarrow> 32 word" where
  "Maj x y z = (x AND y) XOR (x AND z) XOR (y AND z)"

definition bsig0 :: "32 word \<Rightarrow> 32 word" where
  "bsig0 x = word_rotr 2 x XOR word_rotr 13 x XOR word_rotr 22 x"

definition bsig1 :: "32 word \<Rightarrow> 32 word" where
  "bsig1 x = word_rotr 6 x XOR word_rotr 11 x XOR word_rotr 25 x"

definition ssig0 :: "32 word \<Rightarrow> 32 word" where
  "ssig0 x = word_rotr 7 x XOR word_rotr 18 x XOR drop_bit 3 x"

definition ssig1 :: "32 word \<Rightarrow> 32 word" where
  "ssig1 x = word_rotr 17 x XOR word_rotr 19 x XOR drop_bit 10 x"

text \<open>Big-endian conversions between bytes and words.\<close>

definition be32 :: "byte list \<Rightarrow> 32 word" where
  "be32 bs = push_bit 24 (ucast (bs ! 0)) OR push_bit 16 (ucast (bs ! 1))
             OR push_bit 8 (ucast (bs ! 2)) OR ucast (bs ! 3)"

definition bytes_of_32 :: "32 word \<Rightarrow> byte list" where
  "bytes_of_32 w = [ucast (drop_bit 24 w), ucast (drop_bit 16 w), ucast (drop_bit 8 w), ucast w]"

definition bytes_of_64 :: "64 word \<Rightarrow> byte list" where
  "bytes_of_64 w = map (\<lambda>i. ucast (drop_bit (8 * (7 - i)) w)) [0..<8]"

text \<open>
  Padding: the byte \<open>0x80\<close>, then as few zero bytes as make the length a multiple of
  64 once the eight bytes of the bit length are appended.
\<close>

definition sha256_pad :: "byte list \<Rightarrow> byte list" where
  "sha256_pad msg =
     msg @ [0x80] @ replicate ((64 - (length msg + 9) mod 64) mod 64) 0
         @ bytes_of_64 (of_nat (8 * length msg))"

definition chunks :: "nat \<Rightarrow> 'a list \<Rightarrow> 'a list list" where
  "chunks k xs = map (\<lambda>i. take k (drop (k * i) xs)) [0..<length xs div k]"

text \<open>The message schedule: \<open>schedule 48\<close> extends the 16 words of a block to 64.\<close>

fun schedule :: "nat \<Rightarrow> 32 word list \<Rightarrow> 32 word list" where
  "schedule 0 ws = ws"
| "schedule (Suc k) ws =
     (let t = length ws
      in schedule k
           (ws @ [ssig1 (ws ! (t - 2)) + ws ! (t - 7) + ssig0 (ws ! (t - 15)) + ws ! (t - 16)]))"

fun sha_round :: "32 word \<times> 32 word \<Rightarrow> sha_state \<Rightarrow> sha_state" where
  "sha_round (k, w) (a, b, c, d, e, f, g, h) =
     (let T1 = h + bsig1 e + Ch e f g + k + w;
          T2 = bsig0 a + Maj a b c
      in (T1 + T2, a, b, c, d + T1, e, f, g))"

fun add_state :: "sha_state \<Rightarrow> sha_state \<Rightarrow> sha_state" where
  "add_state (a, b, c, d, e, f, g, h) (a', b', c', d', e', f', g', h') =
     (a + a', b + b', c + c', d + d', e + e', f + f', g + g', h + h')"

definition compress :: "byte list \<Rightarrow> sha_state \<Rightarrow> sha_state" where
  "compress block st =
     (let W = schedule 48 (map be32 (chunks 4 block))
      in add_state st (fold sha_round (zip K256 W) st))"

fun bytes_of_state :: "sha_state \<Rightarrow> byte list" where
  "bytes_of_state (a, b, c, d, e, f, g, h) = concat (map bytes_of_32 [a, b, c, d, e, f, g, h])"

text \<open>
  Modelled from the spec: the SHA-256 digest of a list of bytes, the hash that
  \<open>createHmac('sha256', key)\<close> names.
\<close>

definition sha256 :: "byte list \<Rightarrow> byte list" where
  "sha256 msg = bytes_of_state (fold compress (chunks 64 (sha256_pad msg)) H256)"

text \<open>
  Modelled from the spec: HMAC with the block size 64 of SHA-256. A key longer than a
  block is hashed first, then the key is filled with zero bytes to a block.
\<close>

definition hmac_sha256 :: "byte list \<Rightarrow> byte list \<Rightarrow> byte list" where
  "hmac_sha256 key msg =
     (let k0 = (if 64 < length key then sha256 key else key);
          k1 = k0 @ replicate (64 - length k0) 0
      in sha256 (map (\<lambda>b. b XOR 0x5c) k1 @ sha256 (map (\<lambda>b. b XOR 0x36) k1 @ msg)))"

text \<open>
  Modelled from the spec: \<open>digest('hex')\<close> gives two lowercase hexadecimal digits
  for every byte.
\<close>

definition hex_digit :: "nat \<Rightarrow> char" where
  "hex_digit d = ''0123456789abcdef'' ! d"

definition hex :: "byte list \<Rightarrow> string" where
  "hex bs = concat (map (\<lambda>b. [hex_digit (unat b div 16), hex_digit (unat b mod 16)]) bs)"

text \<open>A move is already the list of its UTF-8 bytes; \<open>utf8\<close> only changes the type.\<close>

definition utf8 :: "string \<Rightarrow> byte list" where
  "utf8 s = map of_char s"

text \<open>
  \<open>HMACCalculator.calculateHMAC(key, message)\<close>; the key is a \<open>Buffer\<close>, a list of
  bytes.
\<close>

definition calculateHMAC :: "byte list \<Rightarrow> string \<Rightarrow> string" where
  "calculateHMAC key message = hex (hmac_sha256 key (utf8 message))"

text \<open>
  Modelled from the spec: the program has no function that checks a commitment (it
  prints the HMAC, and later the key, and leaves the check to the user). The spec's
  \<open>verify(key, move, commitment)\<close> "recomputes \<open>commit(key, move)\<close> and compares
  byte-for-byte to the supplied commitment; returns true iff equal", where \<open>commit\<close> is
  \<open>calculateHMAC\<close>.
\<close>

definition verify :: "byte list \<Rightarrow> move \<Rightarrow> string \<Rightarrow> bool" where
  "verify key m commitment = (calculateHMAC key m = commitment)"

section \<open>Auxiliary notions for the proofs\<close>

text \<open>
  The circular distance from row \<open>i\<close> to column \<open>c\<close> in a matrix of size \<open>n\<close>, the
  cell that the loops leave at a given distance, and the row of index \<open>0\<close>.
\<close>

definition dist :: "nat \<Rightarrow> nat \<Rightarrow> nat \<Rightarrow> nat" where
  "dist n i c = (c + n - i) mod n"

definition cell :: "nat \<Rightarrow> nat \<Rightarrow> outcome" where
  "cell n d =
     (if 1 \<le> d \<and> 2 * d + 1 \<le> n then Win
      else if 2 * (n - d) + 1 \<le> n then Lose
      else Draw)"

definition canonical_row :: "nat \<Rightarrow> outcome list" where
  "canonical_row n =
     Draw # replicate ((n - 1) div 2) Win @ replicate (n - 1 - 2 * ((n - 1) div 2)) Draw
          @ replicate ((n - 1) div 2) Lose"

section \<open>The loops of \<open>generateRulesMatrix\<close>\<close>

declare inner_loop.simps [simp del]

declare outer_loop.simps [simp del]

subsection \<open>Shape of the matrix\<close>

lemma inner_loop_length: "length (inner_loop n i j m) = length m"
  by (induction n i j m rule: inner_loop.induct) (subst inner_loop.simps, simp add: Let_def)

lemma inner_loop_other_row: "r \<noteq> i \<Longrightarrow> inner_loop n i j m ! r = m ! r"
  by (induction n i j m rule: inner_loop.induct) (subst inner_loop.simps, simp add: Let_def)

text \<open>One turn of the inner loop, with the two assignments to row \<open>i\<close> merged.\<close>

lemma inner_loop_unfold:
  assumes "i < length m"
  shows "inner_loop n i j m =
    (if 2 * j + 1 \<le> n
     then inner_loop n i (Suc j) (m[i := (m ! i)[(i + j) mod n := Win, (i + n - j) mod n := Lose]])
     else m)"
  using assms by (subst inner_loop.simps) (simp add: Let_def)

lemma inner_loop_row_length:
  "i < length m \<Longrightarrow> length (inner_loop n i j m ! i) = length (m ! i)"
proof (induction n i j m rule: inner_loop.induct)
  case (1 n i j m)
  show ?case
  proof (cases "2 * j + 1 \<le> n")
    case True
    let ?m' = "m[i := (m ! i)[(i + j) mod n := Win, (i + n - j) mod n := Lose]]"
    have "length (inner_loop n i (Suc j) ?m' ! i) = length (?m' ! i)"
      using 1 True by (simp add: Let_def)
    then show ?thesis using True 1(2) by (subst inner_loop_unfold) simp_all
  next
    case False
    then show ?thesis using 1(2) by (subst inner_loop_unfold) simp_all
  qed
qed

lemma inner_loop_rows:
  assumes "i < length m" "\<forall>r<length m. length (m ! r) = n" "r < length m"
  shows "length (inner_loop n i j m ! r) = n"
proof (cases "r = i")
  case True
  then show ?thesis using assms by (simp add: inner_loop_row_length)
next
  case False
  then show ?thesis using assms by (simp add: inner_loop_other_row)
qed

lemma outer_loop_length: "length (outer_loop n i m) = length m"
  by (induction n i m rule: outer_loop.induct)
     (subst outer_loop.simps, simp add: inner_loop_length)

lemma outer_loop_rows:
  assumes "length m = n" "\<forall>r<n. length (m ! r) = n" "r < n"
  shows "length (outer_loop n i m ! r) = n"
  using assms
proof (induction n i m rule: outer_loop.induct)
  case (1 n i m)
  show ?case
  proof (cases "i < n")
    case True
    let ?m1 = "inner_loop n i 1 m"
    have len: "length ?m1 = n" using 1 by (simp add: inner_loop_length)
    have rows: "\<forall>r<n. length (?m1 ! r) = n"
      using 1(2,3) True by (simp add: inner_loop_rows)
    have "length (outer_loop n (i + 1) ?m1 ! r) = n"
      using 1(1)[OF True len rows] 1(4) by simp
    then show ?thesis using True by (subst outer_loop.simps) simp
  next
    case False
    then show ?thesis using 1 by (subst outer_loop.simps) simp
  qed
qed

subsection \<open>Circular distance\<close>

lemma mod_below_twice: "x < 2 * n \<Longrightarrow> x mod n = (if x < n then x else x - (n::nat))"
  by (simp add: le_mod_geq)

lemma dist_less: "i < n \<Longrightarrow> dist n i c < n"
  unfolding dist_def by (intro mod_less_divisor) simp

lemma dist_if: "i < n \<Longrightarrow> c < n \<Longrightarrow> dist n i c = (if i \<le> c then c - i else c + n - i)"
  unfolding dist_def by (subst mod_below_twice) auto

lemma dist_self: "i < n \<Longrightarrow> dist n i i = 0"
  by (simp add: dist_if)

lemma dist_swap:
  assumes "i < n" "j < n" "i \<noteq> j"
  shows "0 < dist n i j" "dist n j i = n - dist n i j"
  using assms by (auto simp: dist_if)

text \<open>The distance is the \<open>(j - i) mod n\<close> of the integers.\<close>

lemma dist_int:
  assumes "i < n" "j < n"
  shows "int (dist n i j) = (int j - int i) mod int n"
proof (cases "i \<le> j")
  case True
  then have "(int j - int i) mod int n = int j - int i"
    using assms by (intro mod_pos_pos_trivial) linarith+
  then show ?thesis using True assms by (simp add: dist_if)
next
  case False
  then have "(int j - int i + int n) mod int n = int j - int i + int n"
    using assms by (intro mod_pos_pos_trivial) linarith+
  then show ?thesis using False assms by (simp add: dist_if)
qed

text \<open>The two columns written in turn \<open>j\<close> of the inner loop, by their distance.\<close>

lemma win_index_iff:
  assumes "i < n" "c < n" "j < n"
  shows "(i + j) mod n = c \<longleftrightarrow> dist n i c = j"
proof -
  have "(i + j) mod n = (if i + j < n then i + j else i + j - n)"
    using assms by (intro mod_below_twice) linarith
  then show ?thesis using assms by (auto simp: dist_if)
qed

lemma lose_index_iff:
  assumes "i < n" "c < n" "0 < j" "j < n"
  shows "(i + n - j) mod n = c \<longleftrightarrow> dist n i c + j = n"
proof -
  have "(i + n - j) mod n = (if i + n - j < n then i + n - j else i + n - j - n)"
    using assms by (intro mod_below_twice) linarith
  then show ?thesis using assms by (auto simp: dist_if)
qed

lemma cell_Win_iff: "cell n d = Win \<longleftrightarrow> 1 \<le> d \<and> 2 * d + 1 \<le> n"
  by (simp add: cell_def)

lemma cell_Lose_iff: "d < n \<Longrightarrow> cell n d = Lose \<longleftrightarrow> 1 \<le> d \<and> 2 * (n - d) + 1 \<le> n"
  unfolding cell_def by (cases "1 \<le> d \<and> 2 * d + 1 \<le> n"; simp; arith)

lemma cell_Draw_iff: "d < n \<Longrightarrow> cell n d = Draw \<longleftrightarrow> d = 0 \<or> 2 * d = n"
  unfolding cell_def by (cases "1 \<le> d \<and> 2 * d + 1 \<le> n"; simp; arith)

subsection \<open>The cells after the loops\<close>

text \<open>
  The invariant of the inner loop, started at turn \<open>j\<close>: the columns at a distance
  \<open>d\<close> with \<open>j \<le> d \<le> (n - 1) / 2\<close> hold \<open>Win\<close>, those at a distance \<open>n - d\<close>
  hold \<open>Lose\<close>, and no other cell of the row has changed. No column is written twice
  with different values, since \<open>2 * j + 1 \<le> n\<close> in every turn.
\<close>

lemma inner_loop_cell:
  assumes "i < length m" "length (m ! i) = n" "i < n" "c < n" "0 < j"
  shows "inner_loop n i j m ! i ! c =
    (if j \<le> dist n i c \<and> 2 * dist n i c + 1 \<le> n then Win
     else if dist n i c + j \<le> n \<and> 2 * (n - dist n i c) + 1 \<le> n then Lose
     else m ! i ! c)"
  using assms
proof (induction n i j m rule: inner_loop.induct)
  case (1 n i j m)
  let ?d = "dist n i c"
  have d: "?d < n" using 1 by (simp add: dist_less)
  show ?case
  proof (cases "2 * j + 1 \<le> n")
    case True
    let ?w = "(i + j) mod n" and ?l = "(i + n - j) mod n"
    let ?m' = "m[i := (m ! i)[?w := Win, ?l := Lose]]"
    have jn: "j < n" using True by simp
    have w: "?w = c \<longleftrightarrow> ?d = j" using 1 jn by (simp add: win_index_iff)
    have l: "?l = c \<longleftrightarrow> ?d + j = n" using 1 jn by (simp add: lose_index_iff)
    have wn: "?w < n" and ln: "?l < n" using jn by simp_all
    have step: "?m' ! i ! c = (if ?d + j = n then Lose else if ?d = j then Win else m ! i ! c)"
      using 1(2,3,5) w l by (simp add: nth_list_update)
    have unf: "inner_loop n i j m = inner_loop n i (Suc j) ?m'"
      using True 1(2) by (subst inner_loop_unfold) simp_all
    have ih: "inner_loop n i (Suc j) ?m' ! i ! c =
      (if Suc j \<le> ?d \<and> 2 * ?d + 1 \<le> n then Win
       else if ?d + Suc j \<le> n \<and> 2 * (n - ?d) + 1 \<le> n then Lose
       else ?m' ! i ! c)"
      using 1 True by (simp add: Let_def)
    show ?thesis
      unfolding unf ih step using True d by auto
  next
    case False
    then show ?thesis using 1(2) d by (subst inner_loop_unfold) auto
  qed
qed

text \<open>The invariant of the outer loop: the rows from \<open>i\<close> on are those still to do.\<close>

lemma outer_loop_cell:
  assumes "length m = n" "\<forall>r<n. length (m ! r) = n" "r < n" "c < n"
  shows "outer_loop n i m ! r ! c =
    (if i \<le> r then
       (if 1 \<le> dist n r c \<and> 2 * dist n r c + 1 \<le> n then Win
        else if 2 * (n - dist n r c) + 1 \<le> n then Lose
        else m ! r ! c)
     else m ! r ! c)"
  using assms
proof (induction n i m rule: outer_loop.induct)
  case (1 n i m)
  show ?case
  proof (cases "i < n")
    case True
    let ?m1 = "inner_loop n i 1 m"
    have len: "length ?m1 = n" using 1 by (simp add: inner_loop_length)
    have rows: "\<forall>r<n. length (?m1 ! r) = n"
      using 1(2,3) True by (simp add: inner_loop_rows)
    have ih: "outer_loop n (i + 1) ?m1 ! r ! c =
      (if i + 1 \<le> r then
         (if 1 \<le> dist n r c \<and> 2 * dist n r c + 1 \<le> n then Win
          else if 2 * (n - dist n r c) + 1 \<le> n then Lose
          else ?m1 ! r ! c)
       else ?m1 ! r ! c)"
      using 1(1)[OF True len rows] 1(4,5) by simp
    have unf: "outer_loop n i m = outer_loop n (i + 1) ?m1"
      using True by (subst outer_loop.simps) simp
    have d: "dist n r c < n" using 1(4) by (simp add: dist_less)
    show ?thesis
    proof (cases "r = i")
      case True
      have "?m1 ! r ! c =
        (if 1 \<le> dist n r c \<and> 2 * dist n r c + 1 \<le> n then Win
         else if dist n r c + 1 \<le> n \<and> 2 * (n - dist n r c) + 1 \<le> n then Lose
         else m ! r ! c)"
        unfolding True using 1(2,3,4,5) True by (intro inner_loop_cell) simp_all
      then show ?thesis unfolding unf ih using True d by auto
    next
      case False
      then have "?m1 ! r = m ! r" by (simp add: inner_loop_other_row)
      then show ?thesis unfolding unf ih using False by auto
    qed
  next
    case False
    then show ?thesis using 1(4) by (subst outer_loop.simps) simp
  qed
qed

subsection \<open>The matrix\<close>

lemma generateRulesMatrix_length: "length (generateRulesMatrix ms) = length ms"
  by (simp add: generateRulesMatrix_def Let_def outer_loop_length)

lemma generateRulesMatrix_row_length:
  "r < length ms \<Longrightarrow> length (generateRulesMatrix ms ! r) = length ms"
  by (simp add: generateRulesMatrix_def Let_def outer_loop_rows)

lemma generateRulesMatrix_cell:
  assumes "r < length ms" "c < length ms"
  shows "generateRulesMatrix ms ! r ! c = cell (length ms) (dist (length ms) r c)"
  using assms by (simp add: generateRulesMatrix_def Let_def outer_loop_cell cell_def)

lemma generateRulesMatrix_cell_int:
  assumes "i < length ms" "j < length ms"
  shows "generateRulesMatrix ms ! i ! j =
    (let n = int (length ms); d = (int j - int i) mod n
     in if 1 \<le> d \<and> 2 * d + 1 \<le> n then Win
        else if 2 * (n - d) + 1 \<le> n then Lose
        else Draw)"
proof -
  let ?n = "length ms"
  have d: "dist ?n i j < ?n" using assms(1) by (rule dist_less)
  have "(int j - int i) mod int ?n = int (dist ?n i j)"
    using assms by (simp add: dist_int)
  then show ?thesis
    using d by (simp add: generateRulesMatrix_cell[OF assms] cell_def Let_def) linarith
qed

lemma generateRulesMatrix_diag: "i < length ms \<Longrightarrow> generateRulesMatrix ms ! i ! i = Draw"
  by (simp add: generateRulesMatrix_cell dist_self cell_def)

lemma generateRulesMatrix_antisym:
  assumes "i < length ms" "j < length ms"
  shows "generateRulesMatrix ms ! i ! j = Win \<longleftrightarrow> generateRulesMatrix ms ! j ! i = Lose"
proof (cases "i = j")
  case True
  show ?thesis unfolding True by (simp add: generateRulesMatrix_diag[OF assms(2)])
next
  case False
  let ?n = "length ms"
  let ?d = "dist ?n i j"
  have d: "0 < ?d" "?d < ?n"
    using assms False by (simp_all add: dist_swap(1) dist_less)
  have sw: "dist ?n j i = ?n - ?d"
    using assms False by (rule dist_swap(2))
  have "generateRulesMatrix ms ! i ! j = Win \<longleftrightarrow> 1 \<le> ?d \<and> 2 * ?d + 1 \<le> ?n"
    by (simp only: generateRulesMatrix_cell[OF assms] cell_Win_iff)
  moreover have "generateRulesMatrix ms ! j ! i = Lose \<longleftrightarrow>
      1 \<le> ?n - ?d \<and> 2 * (?n - (?n - ?d)) + 1 \<le> ?n"
    unfolding generateRulesMatrix_cell[OF assms(2,1)] sw
    by (rule cell_Lose_iff) (use d in linarith)
  moreover have "?n - (?n - ?d) = ?d" using d by linarith
  ultimately show ?thesis using d by (simp, arith)
qed

section \<open>\<open>indexOf\<close> and \<open>determineResult\<close>\<close>

lemma indexOf_from_notin: "x \<notin> set xs \<Longrightarrow> indexOf_from k xs x = - 1"
  by (induction xs arbitrary: k) auto

lemma indexOf_from_in:
  "x \<in> set xs \<Longrightarrow> \<exists>i<length xs. indexOf_from k xs x = int (k + i) \<and> xs ! i = x"
proof (induction xs arbitrary: k)
  case Nil
  then show ?case by simp
next
  case (Cons y ys)
  show ?case
  proof (cases "y = x")
    case True
    then show ?thesis by (intro exI[of _ 0]) simp
  next
    case False
    then have "x \<in> set ys" using Cons.prems by simp
    then obtain i where "i < length ys" "indexOf_from (k + 1) ys x = int (k + 1 + i)" "ys ! i = x"
      using Cons.IH by blast
    then show ?thesis using False by (intro exI[of _ "Suc i"]) simp
  qed
qed

lemma indexOf_from_distinct:
  "distinct xs \<Longrightarrow> i < length xs \<Longrightarrow> indexOf_from k xs (xs ! i) = int (k + i)"
proof (induction xs arbitrary: k i)
  case Nil
  then show ?case by simp
next
  case (Cons y ys)
  then show ?case by (cases i) auto
qed

lemma indexOf_absent_iff: "indexOf xs x = - 1 \<longleftrightarrow> x \<notin> set xs"
proof
  assume absent: "indexOf xs x = - 1"
  show "x \<notin> set xs"
  proof
    assume "x \<in> set xs"
    then obtain i where "indexOf_from 0 xs x = int (0 + i)"
      using indexOf_from_in[of x xs 0] by blast
    then show False using absent by (simp add: indexOf_def)
  qed
next
  assume "x \<notin> set xs"
  then show "indexOf xs x = - 1" by (simp add: indexOf_def indexOf_from_notin)
qed

lemma indexOf_present:
  "x \<in> set xs \<Longrightarrow> \<exists>i<length xs. indexOf xs x = int i \<and> xs ! i = x"
  using indexOf_from_in[of x xs 0] by (simp add: indexOf_def)

lemma indexOf_nth: "distinct xs \<Longrightarrow> i < length xs \<Longrightarrow> indexOf xs (xs ! i) = int i"
  by (simp add: indexOf_def indexOf_from_distinct)

text \<open>
  With both moves found, \<open>determineResult\<close> reads a cell that exists: the matrix has
  a row for every move and every row has a cell for every move.
\<close>

lemma determineResult_cell:
  assumes "indexOf ms a = int i" "indexOf ms b = int j" "i < length ms" "j < length ms"
  shows "determineResult (GameRules_new ms) a b = Inr (Some (generateRulesMatrix ms ! i ! j))"
  using assms
  by (simp add: determineResult_def GameRules_new_def Let_def js_nth_def
      generateRulesMatrix_length generateRulesMatrix_row_length)

lemma determineResult_nth:
  assumes "distinct ms" "i < length ms" "j < length ms"
  shows "determineResult (GameRules_new ms) (ms ! i) (ms ! j) =
    Inr (Some (generateRulesMatrix ms ! i ! j))"
  using assms by (intro determineResult_cell) (simp_all add: indexOf_nth)

lemma determineResult_absent:
  assumes "a \<notin> set ms \<or> b \<notin> set ms"
  shows "determineResult (GameRules_new ms) a b =
    Inl (Error ''Invalid move selected. Please choose a valid move.'')"
  using assms by (auto simp: determineResult_def GameRules_new_def Let_def indexOf_absent_iff)

lemma determineResult_present:
  assumes "a \<in> set ms" "b \<in> set ms"
  shows "\<exists>r. determineResult (GameRules_new ms) a b = Inr (Some r)"
proof -
  obtain i where i: "i < length ms" "indexOf ms a = int i"
    using assms indexOf_present[of a ms] by blast
  obtain j where j: "j < length ms" "indexOf ms b = int j"
    using assms indexOf_present[of b ms] by blast
  have "determineResult (GameRules_new ms) a b = Inr (Some (generateRulesMatrix ms ! i ! j))"
    using i j by (intro determineResult_cell)
  then show ?thesis by blast
qed

text \<open>
  Antisymmetry and the draw of a move against itself hold for every list of moves,
  whatever its length and with or without repetitions.
\<close>

lemma determineResult_antisym:
  "determineResult (GameRules_new ms) a b = Inr (Some Win) \<longleftrightarrow>
   determineResult (GameRules_new ms) b a = Inr (Some Lose)"
proof (cases "a \<in> set ms \<and> b \<in> set ms")
  case True
  obtain i where i: "i < length ms" "indexOf ms a = int i"
    using True indexOf_present[of a ms] by blast
  obtain j where j: "j < length ms" "indexOf ms b = int j"
    using True indexOf_present[of b ms] by blast
  have "determineResult (GameRules_new ms) a b = Inr (Some (generateRulesMatrix ms ! i ! j))"
    using i j by (intro determineResult_cell)
  moreover have "determineResult (GameRules_new ms) b a = Inr (Some (generateRulesMatrix ms ! j ! i))"
    using i j by (intro determineResult_cell)
  ultimately show ?thesis
    using generateRulesMatrix_antisym[OF i(1) j(1)] by simp
next
  case False
  then have "a \<notin> set ms \<or> b \<notin> set ms" "b \<notin> set ms \<or> a \<notin> set ms" by auto
  then show ?thesis by (simp add: determineResult_absent)
qed

lemma determineResult_self:
  assumes "a \<in> set ms"
  shows "determineResult (GameRules_new ms) a a = Inr (Some Draw)"
proof -
  obtain i where i: "i < length ms" "indexOf ms a = int i"
    using assms indexOf_present[of a ms] by blast
  have "determineResult (GameRules_new ms) a a = Inr (Some (generateRulesMatrix ms ! i ! i))"
    using i by (intro determineResult_cell)
  then show ?thesis using i(1) by (simp add: generateRulesMatrix_diag)
qed

section \<open>The claims about the rules\<close>

subsection \<open>Rock, paper, scissors\<close>

text \<open>
  The help table of the game \<open>rock paper scissors\<close>: in the row of the PC's \<open>rock\<close>,
  the user's \<open>paper\<close> wins and the user's \<open>scissors\<close> loses, as in the usual game.
\<close>

lemma displayHelp_rock_paper_scissors:
  "displayHelp_header (GameRules_new [''rock'', ''paper'', ''scissors'']) =
     [''v PC'' @ [CHR 0x5C] @ ''User >'', ''rock'', ''paper'', ''scissors''] \<and>
   displayHelp_row (GameRules_new [''rock'', ''paper'', ''scissors'']) 0 =
     [''rock      '', ''Draw      '', ''Win       '', ''Lose      '']"
proof -
  let ?ms = "[''rock'', ''paper'', ''scissors'']"
  let ?row = "generateRulesMatrix ?ms ! 0"
  have "length ?row = 3" by (simp add: generateRulesMatrix_row_length)
  then obtain x y z where row: "?row = [x, y, z]"
    by (auto simp: length_Suc_conv numeral_3_eq_3)
  have "?row ! 0 = Draw" "?row ! 1 = Win" "?row ! 2 = Lose"
    by (simp_all add: generateRulesMatrix_cell cell_def dist_def)
  then have "?row = [Draw, Win, Lose]" unfolding row by simp
  moreover have "replicate 6 CHR '' '' = ''      ''" "replicate 7 CHR '' '' = ''       ''"
    by (simp_all add: eval_nat_numeral)
  ultimately show ?thesis
    by (simp add: displayHelp_header_def displayHelp_row_def GameRules_new_def padEnd_def)
qed

text \<open>
  C1: with \<open>moves = ["rock", "paper", "scissors"]\<close> the spec expects
  \<open>resolve("rock", "scissors") = Win\<close>, \<open>resolve("rock", "paper") = Lose\<close> and
  \<open>resolve("rock", "rock") = Draw\<close>. \<open>determineResult(playerMove, computerMove)\<close>
  returns \<open>Lose\<close> for rock against scissors and \<open>Win\<close> for rock against paper: it
  reads \<open>rulesMatrix[playerIndex][computerIndex]\<close>, the cell that the help table shows
  for the PC's rock and the user's scissors.
\<close>

theorem rock_paper_scissors_results:
  "determineResult (GameRules_new [''rock'', ''paper'', ''scissors'']) ''rock'' ''scissors''
     = Inr (Some Lose) \<and>
   determineResult (GameRules_new [''rock'', ''paper'', ''scissors'']) ''rock'' ''paper''
     = Inr (Some Win) \<and>
   determineResult (GameRules_new [''rock'', ''paper'', ''scissors'']) ''rock'' ''rock''
     = Inr (Some Draw)"
proof -
  let ?ms = "[''rock'', ''paper'', ''scissors'']"
  have "determineResult (GameRules_new ?ms) ''rock'' ''scissors'' =
      Inr (Some (generateRulesMatrix ?ms ! 0 ! 2))"
    by (rule determineResult_cell) (simp_all add: indexOf_def)
  moreover have "determineResult (GameRules_new ?ms) ''rock'' ''paper'' =
      Inr (Some (generateRulesMatrix ?ms ! 0 ! 1))"
    by (rule determineResult_cell) (simp_all add: indexOf_def)
  moreover have "determineResult (GameRules_new ?ms) ''rock'' ''rock'' =
      Inr (Some (generateRulesMatrix ?ms ! 0 ! 0))"
    by (rule determineResult_cell) (simp_all add: indexOf_def)
  ultimately show ?thesis
    by (simp add: generateRulesMatrix_cell cell_def dist_def)
qed

subsection \<open>The circular distance rule\<close>

text \<open>
  C2: for a list \<open>ms\<close> of \<open>n\<close> different moves, \<open>n\<close> odd and at least 3, and two
  moves of index \<open>i\<close> and \<open>j\<close>, let \<open>d = (j - i) mod n\<close>. The result of the move
  \<open>i\<close> against the move \<open>j\<close> is \<open>Draw\<close> when \<open>d = 0\<close>, \<open>Win\<close> when \<open>d\<close> is in
  \<open>{1, ..., (n - 1) / 2}\<close> and \<open>Lose\<close> when \<open>d\<close> is in \<open>{(n + 1) / 2, ..., n - 1}\<close>.
\<close>

theorem circular_distance_rule:
  assumes "distinct ms" "odd n" "3 \<le> n" "n = length ms" "i < n" "j < n"
    and "d = (int j - int i) mod int n"
  shows "(d = 0 \<longrightarrow> determineResult (GameRules_new ms) (ms ! i) (ms ! j) = Inr (Some Draw)) \<and>
    (1 \<le> d \<and> d \<le> (int n - 1) div 2 \<longrightarrow>
       determineResult (GameRules_new ms) (ms ! i) (ms ! j) = Inr (Some Win)) \<and>
    ((int n + 1) div 2 \<le> d \<and> d \<le> int n - 1 \<longrightarrow>
       determineResult (GameRules_new ms) (ms ! i) (ms ! j) = Inr (Some Lose))"
proof -
  have i: "i < length ms" and j: "j < length ms" using assms(4,5,6) by simp_all
  have res: "determineResult (GameRules_new ms) (ms ! i) (ms ! j) =
      Inr (Some (generateRulesMatrix ms ! i ! j))"
    using assms(1) i j by (rule determineResult_nth)
  have cell: "generateRulesMatrix ms ! i ! j =
      (if 1 \<le> d \<and> 2 * d + 1 \<le> int n then Win
       else if 2 * (int n - d) + 1 \<le> int n then Lose
       else Draw)"
    unfolding generateRulesMatrix_cell_int[OF i j] Let_def assms(4,7) ..
  obtain k where k: "n = 2 * k + 1" using assms(2) by (elim oddE)
  have h1: "(int n - 1) div 2 = int k" and h2: "(int n + 1) div 2 = int k + 1"
    unfolding k by simp_all
  have d: "0 \<le> d" "d < int n" using assms(3) unfolding assms(7) by simp_all
  show ?thesis unfolding res cell h1 h2 using d k by simp
qed

theorem circular_distance_rule_witness:
  "distinct [''rock'', ''paper'', ''scissors''] \<and>
   determineResult (GameRules_new [''rock'', ''paper'', ''scissors'']) ''paper'' ''paper''
     = Inr (Some Draw) \<and>
   determineResult (GameRules_new [''rock'', ''paper'', ''scissors'']) ''paper'' ''scissors''
     = Inr (Some Win) \<and>
   determineResult (GameRules_new [''rock'', ''paper'', ''scissors'']) ''paper'' ''rock''
     = Inr (Some Lose)"
  using circular_distance_rule[of "[''rock'', ''paper'', ''scissors'']" 3 1 1 0]
    circular_distance_rule[of "[''rock'', ''paper'', ''scissors'']" 3 1 2 1]
    circular_distance_rule[of "[''rock'', ''paper'', ''scissors'']" 3 1 0 2]
  by simp

subsection \<open>Antisymmetry and the draw on the diagonal\<close>

text \<open>
  C3: for a list of different moves of odd length at least 3 and two of its moves
  \<open>a\<close> and \<open>b\<close>, \<open>a\<close> wins against \<open>b\<close> if and only if \<open>b\<close> loses against \<open>a\<close>.
\<close>

theorem antisymmetry:
  assumes "distinct ms" "odd (length ms)" "3 \<le> length ms" "a \<in> set ms" "b \<in> set ms"
  shows "determineResult (GameRules_new ms) a b = Inr (Some Win) \<longleftrightarrow>
         determineResult (GameRules_new ms) b a = Inr (Some Lose)"
proof -
  obtain i where i: "i < length ms" "ms ! i = a"
    using assms(4) by (auto simp: in_set_conv_nth)
  obtain j where j: "j < length ms" "ms ! j = b"
    using assms(5) by (auto simp: in_set_conv_nth)
  have "determineResult (GameRules_new ms) a b = Inr (Some (generateRulesMatrix ms ! i ! j))"
    using determineResult_nth[OF assms(1) i(1) j(1)] unfolding i(2) j(2) .
  moreover have "determineResult (GameRules_new ms) b a = Inr (Some (generateRulesMatrix ms ! j ! i))"
    using determineResult_nth[OF assms(1) j(1) i(1)] unfolding i(2) j(2) .
  ultimately show ?thesis
    using generateRulesMatrix_antisym[OF i(1) j(1)] by simp
qed

theorem antisymmetry_witness:
  "distinct [''rock'', ''paper'', ''scissors''] \<and>
   odd (length [''rock'', ''paper'', ''scissors'']) \<and>
   determineResult (GameRules_new [''rock'', ''paper'', ''scissors'']) ''rock'' ''paper''
     = Inr (Some Win) \<and>
   determineResult (GameRules_new [''rock'', ''paper'', ''scissors'']) ''paper'' ''rock''
     = Inr (Some Lose)"
proof -
  let ?ms = "[''rock'', ''paper'', ''scissors'']"
  have "determineResult (GameRules_new ?ms) ''rock'' ''paper'' =
      Inr (Some (generateRulesMatrix ?ms ! 0 ! 1))"
    by (rule determineResult_cell) (simp_all add: indexOf_def)
  then have win: "determineResult (GameRules_new ?ms) ''rock'' ''paper'' = Inr (Some Win)"
    by (simp add: generateRulesMatrix_cell cell_def dist_def)
  have "determineResult (GameRules_new ?ms) ''paper'' ''rock'' = Inr (Some Lose)"
    using antisymmetry[of ?ms "''rock''" "''paper''"] win by simp
  then show ?thesis using win by simp
qed

text \<open>
  C5: for a list of different moves of odd length at least 3, every move of the list
  draws against itself.
\<close>

theorem reflexive_draw:
  assumes "distinct ms" "odd (length ms)" "3 \<le> length ms" "a \<in> set ms"
  shows "determineResult (GameRules_new ms) a a = Inr (Some Draw)"
proof -
  obtain i where i: "i < length ms" "ms ! i = a"
    using assms(4) by (auto simp: in_set_conv_nth)
  have "determineResult (GameRules_new ms) a a = Inr (Some (generateRulesMatrix ms ! i ! i))"
    using determineResult_nth[OF assms(1) i(1) i(1)] unfolding i(2) .
  then show ?thesis using i(1) by (simp add: generateRulesMatrix_diag)
qed

theorem reflexive_draw_witness:
  "distinct [''rock'', ''paper'', ''scissors''] \<and>
   odd (length [''rock'', ''paper'', ''scissors'']) \<and>
   ''scissors'' \<in> set [''rock'', ''paper'', ''scissors''] \<and>
   determineResult (GameRules_new [''rock'', ''paper'', ''scissors'']) ''scissors'' ''scissors''
     = Inr (Some Draw)"
  using reflexive_draw[of "[''rock'', ''paper'', ''scissors'']" "''scissors''"] by simp

subsection \<open>Moves that are not in the list\<close>

text \<open>
  C8: for the rules built from any list, \<open>determineResult\<close> throws its error when one
  of the two moves, on either side, is not in the list, and returns a cell of the matrix
  (one of \<open>Win\<close>, \<open>Lose\<close>, \<open>Draw\<close>) without throwing when both are.
\<close>

theorem unknown_move_raises:
  "(a \<notin> set ms \<or> b \<notin> set ms \<longrightarrow>
      determineResult (GameRules_new ms) a b =
        Inl (Error ''Invalid move selected. Please choose a valid move.'')) \<and>
   (a \<in> set ms \<and> b \<in> set ms \<longrightarrow>
      (\<exists>r. determineResult (GameRules_new ms) a b = Inr (Some r)))"
proof (intro conjI impI)
  assume "a \<notin> set ms \<or> b \<notin> set ms"
  then show "determineResult (GameRules_new ms) a b =
      Inl (Error ''Invalid move selected. Please choose a valid move.'')"
    by (rule determineResult_absent)
next
  assume "a \<in> set ms \<and> b \<in> set ms"
  then show "\<exists>r. determineResult (GameRules_new ms) a b = Inr (Some r)"
    by (simp add: determineResult_present)
qed

theorem unknown_move_raises_witness:
  "determineResult (GameRules_new [''rock'', ''paper'', ''scissors'']) ''lizard'' ''rock'' =
     Inl (Error ''Invalid move selected. Please choose a valid move.'') \<and>
   determineResult (GameRules_new [''rock'', ''paper'', ''scissors'']) ''rock'' ''lizard'' =
     Inl (Error ''Invalid move selected. Please choose a valid move.'') \<and>
   (\<exists>r. determineResult (GameRules_new [''rock'', ''paper'', ''scissors'']) ''rock'' ''paper'' =
     Inr (Some r))"
  using unknown_move_raises[of "''lizard''" "[''rock'', ''paper'', ''scissors'']" "''rock''"]
    unknown_move_raises[of "''rock''" "[''rock'', ''paper'', ''scissors'']" "''lizard''"]
    unknown_move_raises[of "''rock''" "[''rock'', ''paper'', ''scissors'']" "''paper''"]
  by simp

subsection \<open>Counting the cells of a row\<close>

lemma count_list_replicate: "count_list (replicate k x) y = (if x = y then k else 0)"
  by (induction k) auto

lemma count_list_rotate: "count_list (rotate k xs) x = count_list xs x"
proof -
  let ?j = "k mod length xs"
  have "count_list (rotate k xs) x = count_list (drop ?j xs) x + count_list (take ?j xs) x"
    by (simp add: rotate_drop_take)
  also have "\<dots> = count_list (take ?j xs @ drop ?j xs) x"
    by (simp only: count_list_append add.commute)
  finally show ?thesis by (simp only: append_take_drop_id)
qed

lemma length_canonical_row: "0 < n \<Longrightarrow> length (canonical_row n) = n"
  unfolding canonical_row_def by simp

lemma canonical_row_nth:
  assumes "d < n"
  shows "canonical_row n ! d = cell n d"
proof (cases "d = 0")
  case True
  then show ?thesis using assms by (simp add: canonical_row_def cell_def)
next
  case False
  define h where "h = (n - 1) div 2"
  have h: "2 * h + 1 \<le> n" "n \<le> 2 * h + 2"
    using assms unfolding h_def by simp_all
  let ?tl = "replicate h Win @ replicate (n - 1 - 2 * h) Draw @ replicate h Lose"
  have nth: "canonical_row n ! d = ?tl ! (d - 1)"
    using False unfolding canonical_row_def h_def by (simp add: nth_Cons')
  consider (w) "d \<le> h" | (m) "h < d" "d + h < n" | (l) "n \<le> d + h"
    by linarith
  then show ?thesis
  proof cases
    case w
    then have "?tl ! (d - 1) = Win" using False by (simp add: nth_append)
    moreover have "cell n d = Win" using w False h by (simp add: cell_Win_iff)
    ultimately show ?thesis using nth by simp
  next
    case m
    then have "2 * d = n" using h by linarith
    have "\<not> d - 1 < h" "d - 1 - h < n - 1 - 2 * h" using m by linarith+
    then have "?tl ! (d - 1) = Draw" by (simp add: nth_append)
    moreover have "cell n d = Draw" using \<open>2 * d = n\<close> assms by (simp add: cell_Draw_iff)
    ultimately show ?thesis using nth by simp
  next
    case l
    have "\<not> d - 1 < h" "\<not> d - 1 - h < n - 1 - 2 * h" "d - 1 - h - (n - 1 - 2 * h) < h"
      using l h assms by linarith+
    then have "?tl ! (d - 1) = Lose" by (simp add: nth_append)
    moreover have "1 \<le> d \<and> 2 * (n - d) + 1 \<le> n" using l h assms False by linarith
    then have "cell n d = Lose" using assms by (simp add: cell_Lose_iff)
    ultimately show ?thesis using nth by simp
  qed
qed

text \<open>Row \<open>i\<close> of the matrix is the row of index \<open>0\<close>, turned by \<open>i\<close> places.\<close>

lemma generateRulesMatrix_row:
  assumes "i < length ms"
  shows "generateRulesMatrix ms ! i = rotate (length ms - i) (canonical_row (length ms))"
proof (rule nth_equalityI)
  let ?n = "length ms"
  have n: "0 < ?n" using assms by (cases ms) simp_all
  show "length (generateRulesMatrix ms ! i) = length (rotate (?n - i) (canonical_row ?n))"
    using assms n by (simp add: generateRulesMatrix_row_length length_canonical_row)
  fix c
  assume "c < length (generateRulesMatrix ms ! i)"
  then have c: "c < ?n" using assms by (simp add: generateRulesMatrix_row_length)
  have "rotate (?n - i) (canonical_row ?n) ! c = canonical_row ?n ! ((?n - i + c) mod ?n)"
    using c n by (simp add: nth_rotate length_canonical_row)
  also have "(?n - i + c) mod ?n = dist ?n i c"
    using assms by (simp add: dist_def add.commute)
  also have "canonical_row ?n ! dist ?n i c = cell ?n (dist ?n i c)"
    using assms by (intro canonical_row_nth dist_less)
  finally show "generateRulesMatrix ms ! i ! c = rotate (?n - i) (canonical_row ?n) ! c"
    using assms c by (simp add: generateRulesMatrix_cell)
qed

lemma count_canonical_row:
  assumes "0 < n"
  shows "count_list (canonical_row n) Win = (n - 1) div 2"
    and "count_list (canonical_row n) Lose = (n - 1) div 2"
    and "count_list (canonical_row n) Draw = n - 2 * ((n - 1) div 2)"
  using assms by (simp_all add: canonical_row_def count_list_replicate)

lemma count_row:
  assumes "i < length ms"
  shows "count_list (generateRulesMatrix ms ! i) Win = (length ms - 1) div 2"
    and "count_list (generateRulesMatrix ms ! i) Lose = (length ms - 1) div 2"
    and "count_list (generateRulesMatrix ms ! i) Draw = length ms - 2 * ((length ms - 1) div 2)"
proof -
  have n: "0 < length ms" using assms by (cases ms) simp_all
  show "count_list (generateRulesMatrix ms ! i) Win = (length ms - 1) div 2"
    unfolding generateRulesMatrix_row[OF assms] count_list_rotate
    by (rule count_canonical_row(1)[OF n])
  show "count_list (generateRulesMatrix ms ! i) Lose = (length ms - 1) div 2"
    unfolding generateRulesMatrix_row[OF assms] count_list_rotate
    by (rule count_canonical_row(2)[OF n])
  show "count_list (generateRulesMatrix ms ! i) Draw = length ms - 2 * ((length ms - 1) div 2)"
    unfolding generateRulesMatrix_row[OF assms] count_list_rotate
    by (rule count_canonical_row(3)[OF n])
qed

text \<open>
  With different moves, the moves against which the move of index \<open>i\<close> has the
  result \<open>r\<close> are as many as the cells \<open>r\<close> of row \<open>i\<close>.
\<close>

lemma card_results:
  assumes "distinct ms" "i < length ms"
  shows "card {b \<in> set ms. determineResult (GameRules_new ms) (ms ! i) b = Inr (Some r)} =
    count_list (generateRulesMatrix ms ! i) r"
proof -
  let ?row = "generateRulesMatrix ms ! i"
  let ?I = "{c. c < length ?row \<and> r = ?row ! c}"
  have len: "length ?row = length ms"
    using assms(2) by (rule generateRulesMatrix_row_length)
  have "{b \<in> set ms. determineResult (GameRules_new ms) (ms ! i) b = Inr (Some r)} = (!) ms ` ?I"
  proof (intro set_eqI iffI)
    fix b
    assume "b \<in> {b \<in> set ms. determineResult (GameRules_new ms) (ms ! i) b = Inr (Some r)}"
    then have b: "b \<in> set ms" "determineResult (GameRules_new ms) (ms ! i) b = Inr (Some r)"
      by simp_all
    then obtain c where c: "c < length ms" "b = ms ! c" by (auto simp: in_set_conv_nth)
    have "r = ?row ! c"
      using b(2) determineResult_nth[OF assms c(1)] unfolding c(2) by simp
    then show "b \<in> (!) ms ` ?I" using c len by simp
  next
    fix b
    assume "b \<in> (!) ms ` ?I"
    then obtain c where c: "c < length ms" "r = ?row ! c" "b = ms ! c" using len by auto
    then show "b \<in> {b \<in> set ms. determineResult (GameRules_new ms) (ms ! i) b = Inr (Some r)}"
      using assms by (simp add: determineResult_nth)
  qed
  moreover have "inj_on ((!) ms) ?I"
    using assms(1) len by (intro inj_on_nth) auto
  ultimately have "card {b \<in> set ms. determineResult (GameRules_new ms) (ms ! i) b = Inr (Some r)}
      = card ?I"
    by (simp add: card_image)
  also have "\<dots> = count_list ?row r"
    by (simp only: count_list_eq_length_filter length_filter_conv_card)
  finally show ?thesis .
qed

text \<open>
  C4: for every odd \<open>n\<close> from 3 on and every list of \<open>n\<close> different moves, every
  row of the matrix has exactly \<open>(n - 1) / 2\<close> cells \<open>Win\<close>, exactly \<open>(n - 1) / 2\<close>
  cells \<open>Lose\<close> and exactly one cell \<open>Draw\<close>, which is on the diagonal; every move
  wins against exactly \<open>(n - 1) / 2\<close> moves and loses against exactly \<open>(n - 1) / 2\<close>,
  and exactly \<open>(n - 1) / 2\<close> moves win against it and as many lose against it (the
  columns of the matrix).
\<close>

theorem row_balance:
  assumes "odd n" "3 \<le> n" "distinct ms" "length ms = n" "i < n"
  shows "count_list (generateRulesMatrix ms ! i) Win = (n - 1) div 2 \<and>
    count_list (generateRulesMatrix ms ! i) Lose = (n - 1) div 2 \<and>
    count_list (generateRulesMatrix ms ! i) Draw = 1 \<and>
    generateRulesMatrix ms ! i ! i = Draw \<and>
    card {b \<in> set ms. determineResult (GameRules_new ms) (ms ! i) b = Inr (Some Win)}
      = (n - 1) div 2 \<and>
    card {b \<in> set ms. determineResult (GameRules_new ms) (ms ! i) b = Inr (Some Lose)}
      = (n - 1) div 2 \<and>
    card {b \<in> set ms. determineResult (GameRules_new ms) b (ms ! i) = Inr (Some Win)}
      = (n - 1) div 2 \<and>
    card {b \<in> set ms. determineResult (GameRules_new ms) b (ms ! i) = Inr (Some Lose)}
      = (n - 1) div 2"
proof -
  have i: "i < length ms" using assms(4,5) by simp
  obtain k where k: "n = 2 * k + 1" using assms(1) by (elim oddE)
  have one: "n - 2 * ((n - 1) div 2) = 1" unfolding k by simp
  have rows: "count_list (generateRulesMatrix ms ! i) Win = (n - 1) div 2"
    "count_list (generateRulesMatrix ms ! i) Lose = (n - 1) div 2"
    "count_list (generateRulesMatrix ms ! i) Draw = 1"
    using count_row[OF i] unfolding assms(4) one by simp_all
  have wins: "card {b \<in> set ms. determineResult (GameRules_new ms) (ms ! i) b = Inr (Some Win)}
      = (n - 1) div 2"
    and losses: "card {b \<in> set ms. determineResult (GameRules_new ms) (ms ! i) b = Inr (Some Lose)}
      = (n - 1) div 2"
    using card_results[OF assms(3) i] rows by simp_all
  have "{b \<in> set ms. determineResult (GameRules_new ms) b (ms ! i) = Inr (Some Win)} =
      {b \<in> set ms. determineResult (GameRules_new ms) (ms ! i) b = Inr (Some Lose)}"
    by (simp only: determineResult_antisym)
  moreover have "{b \<in> set ms. determineResult (GameRules_new ms) b (ms ! i) = Inr (Some Lose)} =
      {b \<in> set ms. determineResult (GameRules_new ms) (ms ! i) b = Inr (Some Win)}"
    by (simp only: determineResult_antisym)
  ultimately show ?thesis
    using rows wins losses generateRulesMatrix_diag[OF i] by simp
qed

theorem row_balance_witness:
  "distinct [''rock'', ''paper'', ''scissors'', ''lizard'', ''spock''] \<and>
   count_list (generateRulesMatrix [''rock'', ''paper'', ''scissors'', ''lizard'', ''spock''] ! 3) Win
     = 2 \<and>
   count_list (generateRulesMatrix [''rock'', ''paper'', ''scissors'', ''lizard'', ''spock''] ! 3) Lose
     = 2 \<and>
   count_list (generateRulesMatrix [''rock'', ''paper'', ''scissors'', ''lizard'', ''spock''] ! 3) Draw
     = 1 \<and>
   card {b \<in> set [''rock'', ''paper'', ''scissors'', ''lizard'', ''spock''].
      determineResult (GameRules_new [''rock'', ''paper'', ''scissors'', ''lizard'', ''spock''])
        ''lizard'' b = Inr (Some Win)} = 2"
  using row_balance[of 5 "[''rock'', ''paper'', ''scissors'', ''lizard'', ''spock'']" 3]
  by simp

subsection \<open>Lists of even length\<close>

lemma opposite_cell:
  assumes "even (length ms)" "2 \<le> length ms" "i < length ms"
  shows "(i + length ms div 2) mod length ms < length ms"
    and "(i + length ms div 2) mod length ms \<noteq> i"
    and "generateRulesMatrix ms ! i ! ((i + length ms div 2) mod length ms) = Draw"
proof -
  let ?n = "length ms"
  let ?j = "(i + ?n div 2) mod ?n"
  have half: "?n div 2 < ?n" "0 < ?n div 2" "2 * (?n div 2) = ?n"
    using assms(1,2) by (auto elim!: evenE)
  show j: "?j < ?n" using assms(3) by (intro mod_less_divisor) linarith
  have d: "dist ?n i ?j = ?n div 2"
    using win_index_iff[OF assms(3) j half(1)] by simp
  show "?j \<noteq> i"
  proof
    assume "?j = i"
    then have "dist ?n i i = ?n div 2" using d by simp
    then show False using half(2) assms(3) by (simp add: dist_self)
  qed
  have "cell ?n (?n div 2) = Draw"
    using half by (simp add: cell_Draw_iff)
  then show "generateRulesMatrix ms ! i ! ?j = Draw"
    using assms(3) j d by (simp add: generateRulesMatrix_cell)
qed

lemma off_diagonal_draw_even:
  assumes "i < length ms" "j < length ms" "i \<noteq> j" "generateRulesMatrix ms ! i ! j = Draw"
  shows "even (length ms)"
proof -
  let ?n = "length ms"
  have d: "0 < dist ?n i j" "dist ?n i j < ?n"
    using assms(1,2,3) by (simp_all add: dist_swap(1) dist_less)
  have "cell ?n (dist ?n i j) = Draw"
    using assms by (simp add: generateRulesMatrix_cell)
  then have "2 * dist ?n i j = ?n" using d by (simp add: cell_Draw_iff)
  then show ?thesis by (metis dvd_triv_left)
qed

text \<open>
  C10: the constructor of \<open>GameRules\<close> checks nothing. For a list of \<open>n\<close> moves it
  keeps the list and builds a matrix of \<open>n\<close> rows of \<open>n\<close> cells; when \<open>n\<close> is even and
  at least 2, the cell of row \<open>i\<close> at the circular distance \<open>n / 2\<close> is off the
  diagonal and holds \<open>Draw\<close> (so with different moves the move opposite to a move draws
  against it); and a matrix with at least one row has a \<open>Draw\<close> off the diagonal
  exactly when \<open>n\<close> is even.
\<close>

theorem constructor_accepts_even_length:
  assumes "length ms = n"
  shows "moves (GameRules_new ms) = ms \<and>
    length (rulesMatrix (GameRules_new ms)) = n \<and>
    (\<forall>i<n. length (rulesMatrix (GameRules_new ms) ! i) = n) \<and>
    (even n \<and> 2 \<le> n \<longrightarrow>
      (\<forall>i<n. (i + n div 2) mod n < n \<and> (i + n div 2) mod n \<noteq> i \<and>
         rulesMatrix (GameRules_new ms) ! i ! ((i + n div 2) mod n) = Draw)) \<and>
    (even n \<and> 2 \<le> n \<and> distinct ms \<longrightarrow>
      (\<forall>i<n. determineResult (GameRules_new ms) (ms ! i) (ms ! ((i + n div 2) mod n))
         = Inr (Some Draw))) \<and>
    (0 < n \<longrightarrow>
      ((\<exists>i<n. \<exists>j<n. i \<noteq> j \<and> rulesMatrix (GameRules_new ms) ! i ! j = Draw) \<longleftrightarrow> even n))"
proof -
  have M: "rulesMatrix (GameRules_new ms) = generateRulesMatrix ms"
    and ms: "moves (GameRules_new ms) = ms"
    by (simp_all add: GameRules_new_def)
  have rows: "\<forall>i<n. length (generateRulesMatrix ms ! i) = n"
    using assms by (simp add: generateRulesMatrix_row_length)
  have opp: "even n \<and> 2 \<le> n \<longrightarrow>
      (\<forall>i<n. (i + n div 2) mod n < n \<and> (i + n div 2) mod n \<noteq> i \<and>
         generateRulesMatrix ms ! i ! ((i + n div 2) mod n) = Draw)"
    using opposite_cell[of ms] unfolding assms by blast
  have res: "even n \<and> 2 \<le> n \<and> distinct ms \<longrightarrow>
      (\<forall>i<n. determineResult (GameRules_new ms) (ms ! i) (ms ! ((i + n div 2) mod n))
         = Inr (Some Draw))"
  proof (intro impI allI)
    fix i
    assume a: "even n \<and> 2 \<le> n \<and> distinct ms" and i: "i < n"
    then have "(i + n div 2) mod n < n"
      "generateRulesMatrix ms ! i ! ((i + n div 2) mod n) = Draw"
      using opp by simp_all
    then show "determineResult (GameRules_new ms) (ms ! i) (ms ! ((i + n div 2) mod n))
         = Inr (Some Draw)"
      using a i assms by (simp add: determineResult_nth)
  qed
  have iff: "0 < n \<longrightarrow>
      ((\<exists>i<n. \<exists>j<n. i \<noteq> j \<and> generateRulesMatrix ms ! i ! j = Draw) \<longleftrightarrow> even n)"
  proof (intro impI iffI)
    assume "\<exists>i<n. \<exists>j<n. i \<noteq> j \<and> generateRulesMatrix ms ! i ! j = Draw"
    then show "even n" using off_diagonal_draw_even[of _ ms] unfolding assms by blast
  next
    assume n: "0 < n" and e: "even n"
    then obtain k where "n = 2 * k" by (elim evenE)
    then have "2 \<le> n" using n by simp
    define j where "j = (0 + n div 2) mod n"
    have "j < n \<and> j \<noteq> 0 \<and> generateRulesMatrix ms ! 0 ! j = Draw"
      using opp e n \<open>2 \<le> n\<close> unfolding j_def by blast
    then have "0 < n \<and> j < n \<and> 0 \<noteq> j \<and> generateRulesMatrix ms ! 0 ! j = Draw"
      using n by auto
    then show "\<exists>i<n. \<exists>j<n. i \<noteq> j \<and> generateRulesMatrix ms ! i ! j = Draw"
      by blast
  qed
  show ?thesis
    unfolding M ms using assms rows opp res iff generateRulesMatrix_length[of ms] by blast
qed

theorem constructor_accepts_even_length_witness:
  "rulesMatrix (GameRules_new [''a'', ''b'', ''c'', ''d'']) ! 1 ! 3 = Draw \<and>
   determineResult (GameRules_new [''a'', ''b'', ''c'', ''d'']) ''b'' ''d'' = Inr (Some Draw) \<and>
   length (rulesMatrix (GameRules_new [''a'', ''b'', ''c'', ''d''])) = 4 \<and>
   (\<exists>i<4. \<exists>j<4. i \<noteq> j \<and> rulesMatrix (GameRules_new [''a'', ''b'', ''c'', ''d'']) ! i ! j = Draw)"
proof -
  let ?ms = "[''a'', ''b'', ''c'', ''d'']"
  let ?g = "GameRules_new ?ms"
  have len: "length ?ms = 4" by simp
  note t = constructor_accepts_even_length[OF len]
  have cells: "\<forall>i<4. rulesMatrix ?g ! i ! ((i + 4 div 2) mod 4) = Draw"
    and results: "\<forall>i<4. determineResult ?g (?ms ! i) (?ms ! ((i + 4 div 2) mod 4)) = Inr (Some Draw)"
    and size: "length (rulesMatrix ?g) = 4"
    and ex: "\<exists>i<4. \<exists>j<4. i \<noteq> j \<and> rulesMatrix ?g ! i ! j = Draw"
    using t by simp_all
  have "rulesMatrix ?g ! 1 ! 3 = Draw" using cells[rule_format, of 1] by simp
  moreover have "determineResult ?g ''b'' ''d'' = Inr (Some Draw)"
    using results[rule_format, of 1] by simp
  ultimately show ?thesis using size ex by simp
qed

section \<open>The claims about the configuration\<close>

lemma validateArguments_rejects_iff:
  "validateArguments args = Inl (Exit 1) \<longleftrightarrow>
     length args < 3 \<or> even (length args) \<or> \<not> distinct args"
proof -
  have "card (set args) = length args \<longleftrightarrow> distinct args"
    using card_distinct[of args] distinct_card[of args] by blast
  then show ?thesis
    by (simp add: validateArguments_def even_iff_mod_2_eq_zero)
qed

lemma validateArguments_accepts_iff:
  "validateArguments args = Inr () \<longleftrightarrow>
     3 \<le> length args \<and> odd (length args) \<and> distinct args"
proof -
  have "validateArguments args = Inr () \<longleftrightarrow> validateArguments args \<noteq> Inl (Exit 1)"
    by (simp add: validateArguments_def)
  then show ?thesis
    unfolding validateArguments_rejects_iff by auto
qed

text \<open>
  The constructor of \<open>GameRules\<close> builds rules that answer from a list of two moves,
  from a list of four moves and from a list with a repeated move.
\<close>

theorem constructor_builds_from_invalid_lists:
  "length [''rock'', ''paper''] < 3 \<and>
   determineResult (GameRules_new [''rock'', ''paper'']) ''rock'' ''paper'' = Inr (Some Draw) \<and>
   even (length [''rock'', ''paper'', ''scissors'', ''lizard'']) \<and>
   determineResult (GameRules_new [''rock'', ''paper'', ''scissors'', ''lizard''])
     ''rock'' ''paper'' = Inr (Some Win) \<and>
   \<not> distinct [''rock'', ''rock'', ''paper''] \<and>
   determineResult (GameRules_new [''rock'', ''rock'', ''paper'']) ''rock'' ''paper''
     = Inr (Some Lose)"
proof -
  have "determineResult (GameRules_new [''rock'', ''paper'']) ''rock'' ''paper'' =
      Inr (Some (generateRulesMatrix [''rock'', ''paper''] ! 0 ! 1))"
    by (rule determineResult_cell) (simp_all add: indexOf_def)
  moreover have
    "determineResult (GameRules_new [''rock'', ''paper'', ''scissors'', ''lizard''])
       ''rock'' ''paper'' =
     Inr (Some (generateRulesMatrix [''rock'', ''paper'', ''scissors'', ''lizard''] ! 0 ! 1))"
    by (rule determineResult_cell) (simp_all add: indexOf_def)
  moreover have
    "determineResult (GameRules_new [''rock'', ''rock'', ''paper'']) ''rock'' ''paper'' =
     Inr (Some (generateRulesMatrix [''rock'', ''rock'', ''paper''] ! 0 ! 2))"
    by (rule determineResult_cell) (simp_all add: indexOf_def)
  ultimately show ?thesis
    by (simp add: generateRulesMatrix_cell cell_def dist_if)
qed

text \<open>
  C7, as amended: the check of the configuration is \<open>validateArguments\<close>, which the
  script runs on its arguments before it constructs the game and its rules. When the
  list has fewer than 3 entries, an even length or a repeated entry, the process exits
  with status 1 and no rules are constructed; otherwise the rules are constructed from
  this list. The constructor of \<open>GameRules\<close> itself never fails.
\<close>

theorem validation_before_construction:
  "(length args < 3 \<or> even (length args) \<or> \<not> distinct args \<longrightarrow>
      validateArguments args = Inl (Exit 1) \<and> main args = Inl (Exit 1)) \<and>
   (3 \<le> length args \<and> odd (length args) \<and> distinct args \<longrightarrow>
      validateArguments args = Inr () \<and>
      main args = Inr (RockPaperScissorsGame_new args) \<and>
      rules (RockPaperScissorsGame_new args) = GameRules_new args)"
proof (intro conjI impI)
  assume bad: "length args < 3 \<or> even (length args) \<or> \<not> distinct args"
  then show rejected: "validateArguments args = Inl (Exit 1)"
    by (simp add: validateArguments_rejects_iff)
  then show "main args = Inl (Exit 1)"
    by (simp add: main_def)
next
  assume good: "3 \<le> length args \<and> odd (length args) \<and> distinct args"
  then show accepted: "validateArguments args = Inr ()"
    by (simp add: validateArguments_accepts_iff)
  then show "main args = Inr (RockPaperScissorsGame_new args)"
    by (simp add: main_def)
  show "rules (RockPaperScissorsGame_new args) = GameRules_new args"
    by (simp add: RockPaperScissorsGame_new_def)
qed

theorem validation_before_construction_witness:
  "main [''rock'', ''paper''] = Inl (Exit 1) \<and>
   main [''rock'', ''paper'', ''scissors'', ''lizard''] = Inl (Exit 1) \<and>
   main [''rock'', ''rock'', ''paper''] = Inl (Exit 1) \<and>
   main [''rock'', ''paper'', ''scissors''] =
     Inr (RockPaperScissorsGame_new [''rock'', ''paper'', ''scissors'']) \<and>
   rules (RockPaperScissorsGame_new [''rock'', ''paper'', ''scissors'']) =
     GameRules_new [''rock'', ''paper'', ''scissors'']"
  using validation_before_construction[of "[''rock'', ''paper'']"]
    validation_before_construction[of "[''rock'', ''paper'', ''scissors'', ''lizard'']"]
    validation_before_construction[of "[''rock'', ''rock'', ''paper'']"]
    validation_before_construction[of "[''rock'', ''paper'', ''scissors'']"]
  by simp

section \<open>The claims about the commitment\<close>

lemma length_bytes_of_state: "length (bytes_of_state st) = 32"
  by (cases st rule: bytes_of_state.cases) (simp add: bytes_of_32_def)

lemma length_sha256: "length (sha256 msg) = 32"
  by (simp add: sha256_def length_bytes_of_state)

lemma length_hmac_sha256: "length (hmac_sha256 key msg) = 32"
  by (simp add: hmac_sha256_def Let_def length_sha256)

lemma length_hex: "length (hex bs) = 2 * length bs"
  by (induction bs) (simp_all add: hex_def)

lemma hex_digit_lowercase: "d < 16 \<Longrightarrow> hex_digit d \<in> set ''0123456789abcdef''"
  unfolding hex_digit_def by (rule nth_mem) simp

lemma set_hex: "set (hex bs) \<subseteq> set ''0123456789abcdef''"
proof (induction bs)
  case Nil
  then show ?case by (simp add: hex_def)
next
  case (Cons b bs)
  have "unat b < 256" using unsigned_less[of b, where ?'a = nat] by simp
  then have "unat b div 16 < 16" "unat b mod 16 < 16" by simp_all
  then have "hex_digit (unat b div 16) \<in> set ''0123456789abcdef''"
    "hex_digit (unat b mod 16) \<in> set ''0123456789abcdef''"
    by (simp_all only: hex_digit_lowercase)
  moreover have "hex (b # bs) = hex_digit (unat b div 16) # hex_digit (unat b mod 16) # hex bs"
    by (simp add: hex_def)
  ultimately show ?case using Cons.IH by simp
qed

text \<open>
  The model computes the HMAC-SHA256 of test case 2 of RFC 4231 (the key \<open>Jefe\<close>).
\<close>

lemma hmac_sha256_rfc4231_case2:
  "calculateHMAC (utf8 ''Jefe'') ''what do ya want for nothing?'' =
     ''5bdcc146bf60754e6a042426089575c75a003f089d2739839dec58b964ec3843''"
  by code_simp

text \<open>
  C9: for every key and every move, \<open>calculateHMAC\<close> returns 64 characters, each of
  them one of \<open>0123456789abcdef\<close>.
\<close>

theorem commitment_format:
  "length (calculateHMAC key message) = 64 \<and>
   set (calculateHMAC key message) \<subseteq> set ''0123456789abcdef''"
proof
  show "length (calculateHMAC key message) = 64"
    by (simp add: calculateHMAC_def length_hex length_hmac_sha256)
  show "set (calculateHMAC key message) \<subseteq> set ''0123456789abcdef''"
    unfolding calculateHMAC_def by (rule set_hex)
qed

text \<open>
  C6: for every key (of 32 bytes or not) and every move, checking the commitment
  computed from the key and the move, with the same key and move, gives true.
\<close>

theorem commitment_round_trip: "verify key m (calculateHMAC key m) = True"
  by (simp add: verify_def)

end
